theory Spec2Isabelle
  imports Complex_Main
begin

section \<open>Nonnegative matrix factorization by alternating minimization\<close>

text \<open>
  The program is the second code cell of \<^verbatim>\<open>nonneg_matrix_fact.ipynb\<close> (lines 104 to 139):
  \<^verbatim>\<open>
  Y = Y_init
  MAX_ITERS = 30
  residual = np.zeros(MAX_ITERS)
  for iter_num in range(1, 1+MAX_ITERS):
      if iter_num % 2 == 1:
          X = cp.Variable(shape=(k, n))
          constraint = [X >= 0]
      else:
          Y = cp.Variable(shape=(m, k))
          constraint = [Y >= 0]
      obj = cp.Minimize(cp.norm(A - Y*X, 'fro'))
      prob = cp.Problem(obj, constraint)
      prob.solve(solver=cp.SCS, max_iters=10000)
      if prob.status != cp.OPTIMAL:
          raise Exception("Solver did not converge!")
      print('Iteration {}, residual norm {}'.format(iter_num, prob.value))
      residual[iter_num-1] = prob.value
      if iter_num % 2 == 1:
          X = X.value
      else:
          Y = Y.value
  \<close>
  The cell reads the variables \<open>A\<close>, \<open>Y_init\<close>, \<open>m\<close>, \<open>n\<close>, \<open>k\<close> bound by the first cell
  and binds \<open>Y\<close>, \<open>X\<close> and \<open>residual\<close>. The notebook defines no function: the cell is
  modelled as a function of the variables it reads.

  CVXPY and the SCS solver are not part of the repository. The three lines that build
  the problem and call \<^verbatim>\<open>prob.solve\<close> are one call to a solver that is a parameter of the
  model: it is given the problem as the cell states it and gives back the status, the
  objective value and the value of the variable. In this model a call always gives back a
  status. The exceptions that CVXPY raises on its own, when \<^verbatim>\<open>A - Y*X\<close> is built from
  shapes that do not fit or inside \<^verbatim>\<open>prob.solve\<close>, are added in a second model of the same
  cell, which has the first as the case of a library that never raises.

  The cell does no arithmetic on matrix entries or on objective values, it only stores
  what the solver hands back, so the floating-point numbers are taken as reals. The
  \<^verbatim>\<open>print\<close> writes a line to the standard output and binds nothing; it is left out.
\<close>

subsection \<open>Data\<close>

type_synonym matrix = "real list list"

text \<open>What the names \<open>Y\<close> and \<open>X\<close> can be bound to: a NumPy array, or a fresh
  \<^verbatim>\<open>cp.Variable(shape=(r, c))\<close>.\<close>

datatype pyval = Array matrix | Variable nat nat

text \<open>The one-element list \<^verbatim>\<open>constraint\<close>: \<^verbatim>\<open>[X >= 0]\<close> or \<^verbatim>\<open>[Y >= 0]\<close>.\<close>

datatype constr = X_nonneg | Y_nonneg

text \<open>The problem handed to the solver: the objective \<^verbatim>\<open>norm(A - Y*X, 'fro')\<close> with
  \<open>Y\<close> and \<open>X\<close> as they are bound at that moment, the constraint, and the arguments
  \<^verbatim>\<open>solver=cp.SCS, max_iters=10000\<close> of \<^verbatim>\<open>prob.solve\<close>.\<close>

record problem =
  objective_A :: matrix
  objective_Y :: pyval
  objective_X :: pyval
  objective_norm :: string
  constraint :: constr
  solver_name :: string
  max_iters :: nat

text \<open>The status constants of CVXPY; the cell compares \<^verbatim>\<open>prob.status\<close> with
  \<^verbatim>\<open>cp.OPTIMAL\<close> only.\<close>

datatype status =
  OPTIMAL | OPTIMAL_INACCURATE | INFEASIBLE | INFEASIBLE_INACCURATE
  | UNBOUNDED | UNBOUNDED_INACCURATE | USER_LIMIT | SOLVER_ERROR

text \<open>What the cell reads after \<^verbatim>\<open>prob.solve\<close>: \<^verbatim>\<open>prob.status\<close>, \<^verbatim>\<open>prob.value\<close> and the
  \<^verbatim>\<open>.value\<close> of the variable it has just created.\<close>

record solution =
  prob_status :: status
  prob_value :: real
  variable_value :: matrix

text \<open>The solver is a parameter. It may keep a state of its own (\<open>'w\<close>), so that two
  calls on equal problems need not agree.\<close>

type_synonym 'w solver = "problem \<Rightarrow> 'w \<Rightarrow> solution \<times> 'w"

text \<open>The exceptions: the one the cell raises, the two that Python and NumPy could raise
  at a name or an index, and the two that come from CVXPY.\<close>

datatype exception =
  Exception string | NameError string | IndexError | ValueError string | SolverError string

text \<open>The variables of the notebook that the cell reads or binds, and the state of the
  solver.\<close>

record 'w namespace =
  ns_A :: matrix
  ns_Y :: pyval
  ns_X :: "pyval option"
  ns_residual :: "real list"
  ns_solver :: 'w

text \<open>A cell either raises, leaving the namespace as it is at the \<^verbatim>\<open>raise\<close>, or runs to
  its end.\<close>

type_synonym 'w outcome = "exception \<times> 'w namespace + 'w namespace"

subsection \<open>The cell\<close>

text \<open>\<^verbatim>\<open>residual[i] = v\<close> on a NumPy array: a negative index counts from the end, an index
  out of range raises.\<close>

definition setitem :: "real list \<Rightarrow> int \<Rightarrow> real \<Rightarrow> real list option" where
  "setitem xs i v =
     (let len = int (length xs); j = (if i < 0 then len + i else i)
      in if 0 \<le> j \<and> j < len then Some (xs[nat j := v]) else None)"

text \<open>One pass through the body of the \<^verbatim>\<open>for\<close> loop. On an even pass the name \<open>X\<close>
  is read at \<^verbatim>\<open>Y*X\<close>, after \<open>Y\<close> has been rebound.\<close>

definition iteration ::
  "'w solver \<Rightarrow> nat \<Rightarrow> nat \<Rightarrow> nat \<Rightarrow> nat \<Rightarrow> 'w namespace \<Rightarrow> 'w outcome" where
  "iteration solve m n k iter_num ns =
     (let ns1 = (if iter_num mod 2 = 1 then ns\<lparr>ns_X := Some (Variable k n)\<rparr>
                 else ns\<lparr>ns_Y := Variable m k\<rparr>);
          c = (if iter_num mod 2 = 1 then X_nonneg else Y_nonneg)
      in case ns_X ns1 of
           None \<Rightarrow> Inl (NameError ''X'', ns1)
         | Some x \<Rightarrow>
             (let prob = \<lparr>objective_A = ns_A ns1, objective_Y = ns_Y ns1, objective_X = x,
                          objective_norm = ''fro'', constraint = c,
                          solver_name = ''SCS'', max_iters = 10000\<rparr>;
                  (sol, w) = solve prob (ns_solver ns1);
                  ns2 = ns1\<lparr>ns_solver := w\<rparr>
              in if prob_status sol \<noteq> OPTIMAL
                 then Inl (Exception ''Solver did not converge!'', ns2)
                 else (case setitem (ns_residual ns2) (int iter_num - 1) (prob_value sol) of
                         None \<Rightarrow> Inl (IndexError, ns2)
                       | Some r \<Rightarrow>
                           (let ns3 = ns2\<lparr>ns_residual := r\<rparr>
                            in Inr (if iter_num mod 2 = 1
                                    then ns3\<lparr>ns_X := Some (Array (variable_value sol))\<rparr>
                                    else ns3\<lparr>ns_Y := Array (variable_value sol)\<rparr>)))))"

text \<open>The \<^verbatim>\<open>for\<close> loop over a list of iteration numbers: the first exception ends it.\<close>

fun for_loop ::
  "'w solver \<Rightarrow> nat \<Rightarrow> nat \<Rightarrow> nat \<Rightarrow> nat list \<Rightarrow> 'w namespace \<Rightarrow> 'w outcome" where
  "for_loop solve m n k [] ns = Inr ns"
| "for_loop solve m n k (iter_num # rest) ns =
     (case iteration solve m n k iter_num ns of
        Inl e \<Rightarrow> Inl e
      | Inr ns' \<Rightarrow> for_loop solve m n k rest ns')"

text \<open>The whole cell, as a function of the variables it reads. The notebook binds
  \<open>m = 10\<close>, \<open>n = 10\<close>, \<open>k = 5\<close> and \<open>MAX_ITERS = 30\<close>; here they are arguments. \<open>w\<close> is the
  state of the solver before the first call.\<close>

definition run ::
  "'w solver \<Rightarrow> matrix \<Rightarrow> matrix \<Rightarrow> nat \<Rightarrow> nat \<Rightarrow> nat \<Rightarrow> nat \<Rightarrow> 'w \<Rightarrow> 'w outcome" where
  "run solve A Y_init m n k MAX_ITERS w =
     for_loop solve m n k [1 ..< 1 + MAX_ITERS]
       \<lparr>ns_A = A, ns_Y = Array Y_init, ns_X = None,
        ns_residual = replicate MAX_ITERS 0, ns_solver = w\<rparr>"

subsection \<open>The cell with a library that can raise\<close>

text \<open>Line 125 builds \<^verbatim>\<open>A - Y*X\<close> before \<^verbatim>\<open>prob.solve\<close> is entered, and CVXPY raises there
  when it cannot fit the shapes. What it accepts is its own business, so it is a
  parameter: given \<open>A\<close> and what \<open>Y\<close> and \<open>X\<close> are bound to, the builder says whether the
  objective is built (\<open>None\<close>) or which exception is raised.\<close>

type_synonym builder = "matrix \<Rightarrow> pyval \<Rightarrow> pyval \<Rightarrow> exception option"

text \<open>A solver whose call can end in an exception instead of a solution.\<close>

type_synonym 'w raising_solver = "problem \<Rightarrow> 'w \<Rightarrow> (exception + solution) \<times> 'w"

text \<open>The body of the loop again, line by line as before, with the two places where the
  library can raise: an exception of the library leaves the cell as it is.\<close>

definition iteration_lib ::
  "builder \<Rightarrow> 'w raising_solver \<Rightarrow> nat \<Rightarrow> nat \<Rightarrow> nat \<Rightarrow> nat \<Rightarrow> 'w namespace \<Rightarrow> 'w outcome"
  where
  "iteration_lib build solve m n k iter_num ns =
     (let ns1 = (if iter_num mod 2 = 1 then ns\<lparr>ns_X := Some (Variable k n)\<rparr>
                 else ns\<lparr>ns_Y := Variable m k\<rparr>);
          c = (if iter_num mod 2 = 1 then X_nonneg else Y_nonneg)
      in case ns_X ns1 of
           None \<Rightarrow> Inl (NameError ''X'', ns1)
         | Some x \<Rightarrow>
             (case build (ns_A ns1) (ns_Y ns1) x of
                Some e \<Rightarrow> Inl (e, ns1)
              | None \<Rightarrow>
                  (let prob = \<lparr>objective_A = ns_A ns1, objective_Y = ns_Y ns1,
                               objective_X = x, objective_norm = ''fro'', constraint = c,
                               solver_name = ''SCS'', max_iters = 10000\<rparr>;
                       (r, w) = solve prob (ns_solver ns1);
                       ns2 = ns1\<lparr>ns_solver := w\<rparr>
                   in case r of
                        Inl e \<Rightarrow> Inl (e, ns2)
                      | Inr sol \<Rightarrow>
                          if prob_status sol \<noteq> OPTIMAL
                          then Inl (Exception ''Solver did not converge!'', ns2)
                          else (case setitem (ns_residual ns2) (int iter_num - 1)
                                       (prob_value sol) of
                                  None \<Rightarrow> Inl (IndexError, ns2)
                                | Some res \<Rightarrow>
                                    (let ns3 = ns2\<lparr>ns_residual := res\<rparr>
                                     in Inr (if iter_num mod 2 = 1
                                             then ns3\<lparr>ns_X :=
                                                    Some (Array (variable_value sol))\<rparr>
                                             else ns3\<lparr>ns_Y :=
                                                    Array (variable_value sol)\<rparr>))))))"

fun for_loop_lib ::
  "builder \<Rightarrow> 'w raising_solver \<Rightarrow> nat \<Rightarrow> nat \<Rightarrow> nat \<Rightarrow> nat list \<Rightarrow> 'w namespace \<Rightarrow> 'w outcome"
  where
  "for_loop_lib build solve m n k [] ns = Inr ns"
| "for_loop_lib build solve m n k (iter_num # rest) ns =
     (case iteration_lib build solve m n k iter_num ns of
        Inl e \<Rightarrow> Inl e
      | Inr ns' \<Rightarrow> for_loop_lib build solve m n k rest ns')"

definition run_lib ::
  "builder \<Rightarrow> 'w raising_solver \<Rightarrow> matrix \<Rightarrow> matrix \<Rightarrow> nat \<Rightarrow> nat \<Rightarrow> nat \<Rightarrow> nat \<Rightarrow> 'w
     \<Rightarrow> 'w outcome" where
  "run_lib build solve A Y_init m n k MAX_ITERS w =
     for_loop_lib build solve m n k [1 ..< 1 + MAX_ITERS]
       \<lparr>ns_A = A, ns_Y = Array Y_init, ns_X = None,
        ns_residual = replicate MAX_ITERS 0, ns_solver = w\<rparr>"

text \<open>The library of the first model: every objective is built and every call of the
  solver gives back a solution.\<close>

definition builds_all :: builder where
  "builds_all A Y X = None"

definition returning :: "'w solver \<Rightarrow> 'w raising_solver" where
  "returning solve prob w = (case solve prob w of (sol, w') \<Rightarrow> (Inr sol, w'))"

subsection \<open>Observing the solver\<close>

text \<open>The namespace in which the cell stops, whether it raised or not.\<close>

fun final :: "'w outcome \<Rightarrow> 'w namespace" where
  "final (Inl (e, ns)) = ns"
| "final (Inr ns) = ns"

text \<open>A solver that behaves as \<open>solve\<close> does and writes down every call: the problem it
  was given and the solution it gave back, in the order of the calls.\<close>

type_synonym calls = "(problem \<times> solution) list"

definition recording :: "'w solver \<Rightarrow> ('w \<times> calls) solver" where
  "recording solve prob = (\<lambda>(w, log).
     (let (sol, w') = solve prob w in (sol, (w', log @ [(prob, sol)]))))"

text \<open>The calls that the cell makes to \<open>solve\<close>, up to its end or to the exception.\<close>

definition calls ::
  "'w solver \<Rightarrow> matrix \<Rightarrow> matrix \<Rightarrow> nat \<Rightarrow> nat \<Rightarrow> nat \<Rightarrow> nat \<Rightarrow> 'w \<Rightarrow> calls" where
  "calls solve A Y_init m n k MAX_ITERS w =
     snd (ns_solver (final (run (recording solve) A Y_init m n k MAX_ITERS (w, []))))"

text \<open>The same for a solver that can raise: it writes down every problem with which
  \<^verbatim>\<open>prob.solve\<close> is entered, whether the call gives back a solution or raises.\<close>

definition counting :: "'w raising_solver \<Rightarrow> ('w \<times> problem list) raising_solver" where
  "counting solve prob = (\<lambda>(w, log).
     (let (r, w') = solve prob w in (r, (w', log @ [prob]))))"

definition solver_calls ::
  "builder \<Rightarrow> 'w raising_solver \<Rightarrow> matrix \<Rightarrow> matrix \<Rightarrow> nat \<Rightarrow> nat \<Rightarrow> nat \<Rightarrow> nat \<Rightarrow> 'w
     \<Rightarrow> problem list" where
  "solver_calls build solve A Y_init m n k MAX_ITERS w =
     snd (ns_solver (final (run_lib build (counting solve) A Y_init m n k MAX_ITERS (w, []))))"

definition forget_count :: "('w \<times> problem list) namespace \<Rightarrow> 'w namespace" where
  "forget_count ns = \<lparr>ns_A = ns_A ns, ns_Y = ns_Y ns, ns_X = ns_X ns,
                      ns_residual = ns_residual ns, ns_solver = fst (ns_solver ns)\<rparr>"

text \<open>Dropping the record of the calls from a namespace.\<close>

definition forget :: "('w \<times> calls) namespace \<Rightarrow> 'w namespace" where
  "forget ns = \<lparr>ns_A = ns_A ns, ns_Y = ns_Y ns, ns_X = ns_X ns,
                ns_residual = ns_residual ns, ns_solver = fst (ns_solver ns)\<rparr>"

text \<open>The alternation as the specification words it: on an odd iteration \<open>Y\<close> is a
  constant and \<open>X\<close>, of shape \<open>(k, n)\<close>, is solved for under \<open>X \<ge> 0\<close>; on an even iteration
  \<open>X\<close> is a constant and \<open>Y\<close>, of shape \<open>(m, k)\<close>, is solved for under \<open>Y \<ge> 0\<close>; the
  objective is the Frobenius norm of \<open>A - Y X\<close> in both.\<close>

definition phase_problem :: "matrix \<Rightarrow> matrix \<Rightarrow> nat \<Rightarrow> nat \<Rightarrow> nat \<Rightarrow> nat \<Rightarrow> problem" where
  "phase_problem A fixed m n k i =
     (if odd i
      then \<lparr>objective_A = A, objective_Y = Array fixed, objective_X = Variable k n,
            objective_norm = ''fro'', constraint = X_nonneg,
            solver_name = ''SCS'', max_iters = 10000\<rparr>
      else \<lparr>objective_A = A, objective_Y = Variable m k, objective_X = Array fixed,
            objective_norm = ''fro'', constraint = Y_nonneg,
            solver_name = ''SCS'', max_iters = 10000\<rparr>)"

text \<open>Every entry of a matrix is at least \<open>c\<close>.\<close>

definition entries_ge :: "real \<Rightarrow> matrix \<Rightarrow> bool" where
  "entries_ge c M = list_all (list_all (\<lambda>x. c \<le> x)) M"

text \<open>A name is bound to an array whose entries are all at least \<open>c\<close>.\<close>

fun array_ge :: "real \<Rightarrow> pyval \<Rightarrow> bool" where
  "array_ge c (Array M) = entries_ge c M"
| "array_ge c (Variable r s) = False"

subsection \<open>Solvers for testing\<close>

text \<open>A solver that plays back a script: each call answers with the next solution of
  the list, whatever the problem is, and reports an error once the list is used up.\<close>

definition scripted :: "solution list solver" where
  "scripted prob script =
     (case script of
        [] \<Rightarrow> (\<lparr>prob_status = SOLVER_ERROR, prob_value = 0, variable_value = []\<rparr>, [])
      | sol # rest \<Rightarrow> (sol, rest))"

definition answer :: "status \<Rightarrow> real \<Rightarrow> matrix \<Rightarrow> solution" where
  "answer st v M = \<lparr>prob_status = st, prob_value = v, variable_value = M\<rparr>"

text \<open>A builder for testing. It takes the shape of an array from its row count and the
  length of its first row, lets \<^verbatim>\<open>A - Y*X\<close> through when the inner dimensions of \<open>Y\<close> and
  \<open>X\<close> agree and the product has the shape of \<open>A\<close> or is a single number, and raises
  \<open>ValueError\<close> otherwise.\<close>

fun shape :: "pyval \<Rightarrow> nat \<times> nat" where
  "shape (Array M) = (length M, (case M of [] \<Rightarrow> 0 | row # _ \<Rightarrow> length row))"
| "shape (Variable r c) = (r, c)"

definition shape_checking :: builder where
  "shape_checking A Y X =
     (let (ry, cy) = shape Y; (rx, cx) = shape X
      in if cy = rx \<and> (shape (Array A) = (ry, cx) \<or> (ry, cx) = (1, 1)) then None
         else Some (ValueError ''Cannot broadcast dimensions''))"

text \<open>A solver that gives the same answer to every call.\<close>

definition steady :: "solution \<Rightarrow> 'w solver" where
  "steady sol prob w = (sol, w)"

subsection \<open>The loop invariant\<close>

text \<open>The constant factor of iteration \<open>i\<close>, read off the calls \<open>T\<close> made so far: the
  initial \<open>Y\<close> at the first iteration, afterwards what the call before solved for.\<close>

definition fixed_factor :: "matrix \<Rightarrow> calls \<Rightarrow> nat \<Rightarrow> matrix" where
  "fixed_factor Y_init T i = (if i \<le> 1 then Y_init else variable_value (snd (T ! (i - 2))))"

text \<open>Every call in \<open>T\<close> posed the problem of its phase.\<close>

definition phases_ok :: "matrix \<Rightarrow> matrix \<Rightarrow> nat \<Rightarrow> nat \<Rightarrow> nat \<Rightarrow> calls \<Rightarrow> bool" where
  "phases_ok A Y_init m n k T =
     (\<forall>i \<in> {1 .. length T}.
        fst (T ! (i - 1)) = phase_problem A (fixed_factor Y_init T i) m n k i)"

text \<open>What holds of the namespace when iteration \<open>i\<close> is about to start, with a recording
  solver: \<open>i - 1\<close> calls were made, all of them optimal, their objective values fill the
  first \<open>i - 1\<close> places of \<open>residual\<close>, and the factor that iteration \<open>i\<close> keeps
  constant is bound to an array.\<close>

definition loop_inv ::
  "matrix \<Rightarrow> matrix \<Rightarrow> nat \<Rightarrow> nat \<Rightarrow> nat \<Rightarrow> nat \<Rightarrow> nat \<Rightarrow> ('w \<times> calls) namespace \<Rightarrow> bool" where
  "loop_inv A Y_init m n k N i ns =
     (let T = snd (ns_solver ns) in
        ns_A ns = A \<and> Suc (length T) = i \<and>
        list_all (\<lambda>c. prob_status (snd c) = OPTIMAL) T \<and>
        ns_residual ns = map (\<lambda>c. prob_value (snd c)) T @ replicate (N - length T) 0 \<and>
        phases_ok A Y_init m n k T \<and>
        (if odd i then ns_Y ns = Array (fixed_factor Y_init T i)
         else ns_X ns = Some (Array (fixed_factor Y_init T i))))"

text \<open>What holds of an exception and of the namespace it leaves behind.\<close>

definition loop_failed ::
  "matrix \<Rightarrow> matrix \<Rightarrow> nat \<Rightarrow> nat \<Rightarrow> nat \<Rightarrow> nat \<Rightarrow> exception \<times> ('w \<times> calls) namespace \<Rightarrow> bool" where
  "loop_failed A Y_init m n k N f =
     (let T = snd (ns_solver (snd f)) in
        fst f = Exception ''Solver did not converge!'' \<and>
        ns_A (snd f) = A \<and> T \<noteq> [] \<and> length T \<le> N \<and>
        list_all (\<lambda>c. prob_status (snd c) = OPTIMAL) (butlast T) \<and>
        prob_status (snd (last T)) \<noteq> OPTIMAL \<and>
        ns_residual (snd f) =
          map (\<lambda>c. prob_value (snd c)) (butlast T) @ replicate (N - (length T - 1)) 0 \<and>
        phases_ok A Y_init m n k T)"

section \<open>Properties of the loop\<close>

subsection \<open>Recording does not change the run\<close>

lemma iteration_forget:
  "map_sum (apsnd forget) forget (iteration (recording solve) m n k i ns)
     = iteration solve m n k i (forget ns)"
  by (cases "ns_solver ns")
     (simp add: iteration_def recording_def forget_def Let_def
           split: option.splits prod.splits)

lemma for_loop_forget:
  "map_sum (apsnd forget) forget (for_loop (recording solve) m n k is ns)
     = for_loop solve m n k is (forget ns)"
proof (induction "is" arbitrary: ns)
  case Nil
  show ?case by simp
next
  case (Cons i rest)
  show ?case
  proof (cases "iteration (recording solve) m n k i ns")
    case (Inl e)
    then show ?thesis by (simp add: iteration_forget [symmetric])
  next
    case (Inr ns')
    then show ?thesis by (simp add: iteration_forget [symmetric] Cons.IH)
  qed
qed

lemma run_forget:
  "map_sum (apsnd forget) forget (run (recording solve) A Y_init m n k N (w, l))
     = run solve A Y_init m n k N w"
  using for_loop_forget [of solve m n k "[1 ..< 1 + N]"
          "\<lparr>ns_A = A, ns_Y = Array Y_init, ns_X = None,
            ns_residual = replicate N 0, ns_solver = (w, l)\<rparr>"]
  by (simp add: run_def forget_def)

subsection \<open>The invariant is kept\<close>

lemma fixed_factor_append:
  "i \<le> Suc (length T) \<Longrightarrow> fixed_factor Y_init (T @ [c]) i = fixed_factor Y_init T i"
  by (auto simp add: fixed_factor_def nth_append)

lemma fixed_factor_next:
  "fixed_factor Y_init (T @ [c]) (Suc (Suc (length T))) = variable_value (snd c)"
  by (simp add: fixed_factor_def)

lemma phases_ok_append:
  assumes "phases_ok A Y_init m n k T"
    and "fst c = phase_problem A (fixed_factor Y_init T (Suc (length T))) m n k (Suc (length T))"
  shows "phases_ok A Y_init m n k (T @ [c])"
  unfolding phases_ok_def
proof
  fix i assume i: "i \<in> {1 .. length (T @ [c])}"
  show "fst ((T @ [c]) ! (i - 1)) = phase_problem A (fixed_factor Y_init (T @ [c]) i) m n k i"
  proof (cases "i \<le> length T")
    case True
    with i assms(1) show ?thesis
      by (simp add: phases_ok_def nth_append fixed_factor_append)
  next
    case False
    with i have "i = Suc (length T)" by simp
    with assms(2) show ?thesis
      by (simp add: nth_append fixed_factor_append)
  qed
qed

lemma phases_ok_nth:
  assumes "phases_ok A Y_init m n k T" and "1 \<le> i" and "i \<le> length T"
  shows "fst (T ! (i - 1)) = phase_problem A (fixed_factor Y_init T i) m n k i"
  using assms by (simp add: phases_ok_def)

lemma setitem_next:
  assumes "length T < N"
  shows "setitem (map f T @ replicate (N - length T) 0) (int (Suc (length T)) - 1) v
           = Some (map f T @ v # replicate (N - Suc (length T)) 0)"
proof -
  from assms obtain d where d: "N - length T = Suc d"
    by (metis Suc_diff_Suc)
  then have d': "N - Suc (length T) = d" by simp
  show ?thesis
    using assms list_update_length [of "map f T" 0 "replicate d 0" v]
    by (simp add: setitem_def d d')
qed

lemma iteration_step:
  assumes inv: "loop_inv A Y_init m n k N i ns" and le: "i \<le> N"
  shows "case iteration (recording solve) m n k i ns of
           Inl f \<Rightarrow> loop_failed A Y_init m n k N f
         | Inr ns' \<Rightarrow> loop_inv A Y_init m n k N (Suc i) ns'"
proof -
  obtain w T where s: "ns_solver ns = (w, T)" by (cases "ns_solver ns")
  define prob where "prob = phase_problem A (fixed_factor Y_init T i) m n k i"
  obtain sol w' where sv: "solve prob w = (sol, w')" by (cases "solve prob w")
  from inv s have A: "ns_A ns = A" and len: "Suc (length T) = i"
    and opt: "list_all (\<lambda>c. prob_status (snd c) = OPTIMAL) T"
    and res: "ns_residual ns = map (\<lambda>c. prob_value (snd c)) T @ replicate (N - length T) 0"
    and ph: "phases_ok A Y_init m n k T"
    and fx: "if odd i then ns_Y ns = Array (fixed_factor Y_init T i)
             else ns_X ns = Some (Array (fixed_factor Y_init T i))"
    by (simp_all add: loop_inv_def Let_def)
  from len le have lt: "length T < N" by simp
  have ph': "phases_ok A Y_init m n k (T @ [(prob, sol)])"
    using ph len by (intro phases_ok_append) (simp_all add: prob_def)
  have set: "setitem (map (\<lambda>c. prob_value (snd c)) T @ replicate (Suc N - i) 0)
                 (int i - 1) (prob_value sol)
               = Some (map (\<lambda>c. prob_value (snd c)) T @ prob_value sol # replicate (N - i) 0)"
    using setitem_next [OF lt, of "\<lambda>c. prob_value (snd c)" "prob_value sol"] len by auto
  have nx: "fixed_factor Y_init (T @ [(prob, sol)]) (Suc i) = variable_value sol"
    using fixed_factor_next [of Y_init T "(prob, sol)"] len by simp
  have res': "ns_residual ns = map (\<lambda>c. prob_value (snd c)) T @ replicate (Suc N - i) 0"
    using res len by auto
  show ?thesis
  proof (cases "odd i")
    case True
    then have m1: "i mod 2 = 1" by presburger
    from True fx have Y: "ns_Y ns = Array (fixed_factor Y_init T i)" by simp
    have p: "\<lparr>objective_A = A, objective_Y = Array (fixed_factor Y_init T i),
              objective_X = Variable k n, objective_norm = ''fro'',
              constraint = X_nonneg, solver_name = ''SCS'', max_iters = 10000\<rparr> = prob"
      using True by (simp add: prob_def phase_problem_def)
    show ?thesis
      using True len lt opt ph'
      by (simp add: iteration_def recording_def Let_def m1 s A Y p sv res' set loop_inv_def
            loop_failed_def nx)
  next
    case False
    then have m0: "i mod 2 \<noteq> 1" by presburger
    from False fx have X: "ns_X ns = Some (Array (fixed_factor Y_init T i))" by simp
    have p: "\<lparr>objective_A = A, objective_Y = Variable m k,
              objective_X = Array (fixed_factor Y_init T i), objective_norm = ''fro'',
              constraint = Y_nonneg, solver_name = ''SCS'', max_iters = 10000\<rparr> = prob"
      using False by (simp add: prob_def phase_problem_def)
    show ?thesis
      using False len lt opt ph'
      by (simp add: iteration_def recording_def Let_def m0 s A X p sv res' set loop_inv_def
            loop_failed_def nx)
  qed
qed

lemma for_loop_inv:
  assumes "loop_inv A Y_init m n k N i ns" and "i \<le> j" and "j \<le> Suc N"
  shows "case for_loop (recording solve) m n k [i ..< j] ns of
           Inl f \<Rightarrow> loop_failed A Y_init m n k N f
         | Inr ns' \<Rightarrow> loop_inv A Y_init m n k N j ns'"
  using assms
proof (induction "j - i" arbitrary: i ns)
  case 0
  then show ?case by simp
next
  case (Suc d)
  then have lt: "i < j" and le: "i \<le> N" by simp_all
  then have upt: "[i ..< j] = i # [Suc i ..< j]" by (simp add: upt_conv_Cons)
  show ?case
  proof (cases "iteration (recording solve) m n k i ns")
    case (Inl f)
    with iteration_step [OF Suc.prems(1) le, of solve] show ?thesis by (simp add: upt)
  next
    case (Inr ns')
    with iteration_step [OF Suc.prems(1) le, of solve]
    have inv': "loop_inv A Y_init m n k N (Suc i) ns'" by simp
    have "d = j - Suc i" using Suc.hyps(2) by simp
    from Suc.hyps(1) [OF this inv' _ Suc.prems(3)] lt Inr show ?thesis
      by (simp add: upt)
  qed
qed

lemma run_recording:
  "case run (recording solve) A Y_init m n k N (w, []) of
     Inl f \<Rightarrow> loop_failed A Y_init m n k N f
   | Inr ns \<Rightarrow> loop_inv A Y_init m n k N (Suc N) ns"
proof -
  have "loop_inv A Y_init m n k N 1
          \<lparr>ns_A = A, ns_Y = Array Y_init, ns_X = None,
           ns_residual = replicate N 0, ns_solver = (w, [])\<rparr>"
    by (simp add: loop_inv_def phases_ok_def fixed_factor_def)
  from for_loop_inv [OF this, of "Suc N" solve] show ?thesis
    by (simp add: run_def del: upt_Suc)
qed

text \<open>The same facts for any solver, in terms of the calls that were made to it.\<close>

lemma run_Inr:
  assumes "run solve A Y_init m n k N w = Inr ns"
  shows "length (calls solve A Y_init m n k N w) = N"
    and "list_all (\<lambda>c. prob_status (snd c) = OPTIMAL) (calls solve A Y_init m n k N w)"
    and "ns_residual ns = map (\<lambda>c. prob_value (snd c)) (calls solve A Y_init m n k N w)"
    and "phases_ok A Y_init m n k (calls solve A Y_init m n k N w)"
proof -
  let ?R = "run (recording solve) A Y_init m n k N (w, [])"
  from run_forget [of solve A Y_init m n k N w "[]"] assms
  obtain ns' where R: "?R = Inr ns'" and f: "forget ns' = ns"
    by (cases ?R) auto
  from run_recording [where solve = solve and A = A and Y_init = Y_init and m = m and n = n
      and k = k and N = N and w = w] R
  have inv: "loop_inv A Y_init m n k N (Suc N) ns'" by simp
  have T: "calls solve A Y_init m n k N w = snd (ns_solver ns')"
    by (simp add: calls_def R)
  from f have res: "ns_residual ns = ns_residual ns'"
    by (auto simp add: forget_def)
  from inv show "length (calls solve A Y_init m n k N w) = N"
    by (simp add: loop_inv_def Let_def T)
  from inv show "list_all (\<lambda>c. prob_status (snd c) = OPTIMAL) (calls solve A Y_init m n k N w)"
    by (simp add: loop_inv_def Let_def T)
  from inv show "ns_residual ns = map (\<lambda>c. prob_value (snd c)) (calls solve A Y_init m n k N w)"
    by (simp add: loop_inv_def Let_def T res)
  from inv show "phases_ok A Y_init m n k (calls solve A Y_init m n k N w)"
    by (simp add: loop_inv_def Let_def T)
qed

lemma run_Inl:
  assumes "run solve A Y_init m n k N w = Inl (e, ns)"
  shows "e = Exception ''Solver did not converge!''"
    and "calls solve A Y_init m n k N w \<noteq> []"
    and "length (calls solve A Y_init m n k N w) \<le> N"
    and "list_all (\<lambda>c. prob_status (snd c) = OPTIMAL)
           (butlast (calls solve A Y_init m n k N w))"
    and "prob_status (snd (last (calls solve A Y_init m n k N w))) \<noteq> OPTIMAL"
    and "phases_ok A Y_init m n k (calls solve A Y_init m n k N w)"
proof -
  let ?R = "run (recording solve) A Y_init m n k N (w, [])"
  from run_forget [of solve A Y_init m n k N w "[]"] assms
  obtain ns' where R: "?R = Inl (e, ns')" and f: "forget ns' = ns"
    by (cases ?R) auto
  from run_recording [where solve = solve and A = A and Y_init = Y_init and m = m and n = n
      and k = k and N = N and w = w] R
  have fl: "loop_failed A Y_init m n k N (e, ns')" by simp
  have T: "calls solve A Y_init m n k N w = snd (ns_solver ns')"
    by (simp add: calls_def R)
  from fl show "e = Exception ''Solver did not converge!''"
    by (simp add: loop_failed_def Let_def)
  from fl show "calls solve A Y_init m n k N w \<noteq> []"
    by (simp add: loop_failed_def Let_def T)
  from fl show "length (calls solve A Y_init m n k N w) \<le> N"
    by (simp add: loop_failed_def Let_def T)
  from fl show "list_all (\<lambda>c. prob_status (snd c) = OPTIMAL)
           (butlast (calls solve A Y_init m n k N w))"
    by (simp add: loop_failed_def Let_def T)
  from fl show "prob_status (snd (last (calls solve A Y_init m n k N w))) \<noteq> OPTIMAL"
    by (simp add: loop_failed_def Let_def T)
  from fl show "phases_ok A Y_init m n k (calls solve A Y_init m n k N w)"
    by (simp add: loop_failed_def Let_def T)
qed

lemma run_cases:
  obtains (returns) ns where "run solve A Y_init m n k N w = Inr ns"
  | (raises) e ns where "run solve A Y_init m n k N w = Inl (e, ns)"
  by (cases "run solve A Y_init m n k N w") auto

subsection \<open>Invariants of the iterations that do not raise\<close>

lemma for_loop_Inr_invariant:
  assumes "for_loop solve m n k is ns = Inr ns'" and "P ns"
    and "\<And>i s s'. P s \<Longrightarrow> iteration solve m n k i s = Inr s' \<Longrightarrow> P s'"
  shows "P ns'"
  using assms(1,2)
proof (induction "is" arbitrary: ns)
  case Nil
  then show ?case by simp
next
  case (Cons i rest)
  from Cons.prems(1) obtain s where s: "iteration solve m n k i ns = Inr s"
    and r: "for_loop solve m n k rest s = Inr ns'"
    by (auto split: sum.splits)
  from assms(3) [OF Cons.prems(2) s] have "P s" .
  from Cons.IH [OF r this] show ?case .
qed

lemma setitem_Some:
  assumes "setitem xs i v = Some r"
  shows "set r \<subseteq> insert v (set xs)"
proof -
  from assms obtain j where "r = xs[j := v]"
    by (auto simp add: setitem_def Let_def split: if_splits)
  then show ?thesis by (simp add: set_update_subset_insert)
qed

lemma iteration_Inr:
  assumes "iteration solve m n k i s = Inr s'"
  obtains prob w sol w' where "solve prob w = (sol, w')" and "prob_status sol = OPTIMAL"
    and "setitem (ns_residual s) (int i - 1) (prob_value sol) = Some (ns_residual s')"
    and "(odd i \<and> ns_Y s' = ns_Y s \<and> ns_X s' = Some (Array (variable_value sol))) \<or>
         (even i \<and> ns_Y s' = Array (variable_value sol) \<and> ns_X s' = ns_X s)"
  using assms
  by (auto simp add: iteration_def Let_def odd_iff_mod_2_eq_one
        split: option.splits prod.splits if_splits)

lemma iteration_residual_nonneg:
  assumes "\<forall>prob w. prob_status (fst (solve prob w)) = OPTIMAL
             \<longrightarrow> 0 \<le> prob_value (fst (solve prob w))"
    and "\<forall>v \<in> set (ns_residual s). 0 \<le> v"
    and "iteration solve m n k i s = Inr s'"
  shows "\<forall>v \<in> set (ns_residual s'). 0 \<le> v"
proof -
  from assms(3) obtain prob w sol w' where sv: "solve prob w = (sol, w')"
    and st: "prob_status sol = OPTIMAL"
    and r: "setitem (ns_residual s) (int i - 1) (prob_value sol) = Some (ns_residual s')"
    by (rule iteration_Inr)
  from assms(1) sv st have "0 \<le> prob_value sol" by (metis fst_conv)
  with setitem_Some [OF r] assms(2) show ?thesis by auto
qed

lemma array_ge_Array: "array_ge c v \<Longrightarrow> \<exists>M. v = Array M \<and> entries_ge c M"
  by (cases v) simp_all

lemma iteration_factors_ge:
  assumes "\<forall>prob w. prob_status (fst (solve prob w)) = OPTIMAL
             \<longrightarrow> entries_ge c (variable_value (fst (solve prob w)))"
    and "array_ge c (ns_Y s) \<and> (\<forall>x. ns_X s = Some x \<longrightarrow> array_ge c x)"
    and "iteration solve m n k i s = Inr s'"
  shows "array_ge c (ns_Y s') \<and> (\<forall>x. ns_X s' = Some x \<longrightarrow> array_ge c x)"
proof -
  from assms(3) obtain prob w sol w' where sv: "solve prob w = (sol, w')"
    and st: "prob_status sol = OPTIMAL"
    and s': "(odd i \<and> ns_Y s' = ns_Y s \<and> ns_X s' = Some (Array (variable_value sol))) \<or>
             (even i \<and> ns_Y s' = Array (variable_value sol) \<and> ns_X s' = ns_X s)"
    by (rule iteration_Inr)
  from assms(1) sv st have "entries_ge c (variable_value sol)" by (metis fst_conv)
  with s' assms(2) show ?thesis by auto
qed

lemma iteration_odd_X_ge:
  assumes "\<forall>prob w. prob_status (fst (solve prob w)) = OPTIMAL
             \<longrightarrow> entries_ge c (variable_value (fst (solve prob w)))"
    and "odd i" and "iteration solve m n k i s = Inr s'"
  shows "\<forall>x. ns_X s' = Some x \<longrightarrow> array_ge c x"
proof -
  from assms(3) obtain prob w sol w' where sv: "solve prob w = (sol, w')"
    and st: "prob_status sol = OPTIMAL"
    and s': "(odd i \<and> ns_Y s' = ns_Y s \<and> ns_X s' = Some (Array (variable_value sol))) \<or>
             (even i \<and> ns_Y s' = Array (variable_value sol) \<and> ns_X s' = ns_X s)"
    by (rule iteration_Inr)
  from assms(1) sv st have "entries_ge c (variable_value sol)" by (metis fst_conv)
  with s' assms(2) show ?thesis by auto
qed

lemma iteration_even_Y_ge:
  assumes "\<forall>prob w. prob_status (fst (solve prob w)) = OPTIMAL
             \<longrightarrow> entries_ge c (variable_value (fst (solve prob w)))"
    and "even i" and "iteration solve m n k i s = Inr s'"
  shows "array_ge c (ns_Y s') \<and> ns_X s' = ns_X s"
proof -
  from assms(3) obtain prob w sol w' where sv: "solve prob w = (sol, w')"
    and st: "prob_status sol = OPTIMAL"
    and s': "(odd i \<and> ns_Y s' = ns_Y s \<and> ns_X s' = Some (Array (variable_value sol))) \<or>
             (even i \<and> ns_Y s' = Array (variable_value sol) \<and> ns_X s' = ns_X s)"
    by (rule iteration_Inr)
  from assms(1) sv st have "entries_ge c (variable_value sol)" by (metis fst_conv)
  with s' assms(2) show ?thesis by auto
qed

lemma for_loop_factors_ge:
  assumes "\<forall>prob w. prob_status (fst (solve prob w)) = OPTIMAL
             \<longrightarrow> entries_ge c (variable_value (fst (solve prob w)))"
    and "for_loop solve m n k is ns = Inr ns'"
    and "array_ge c (ns_Y ns) \<and> (\<forall>x. ns_X ns = Some x \<longrightarrow> array_ge c x)"
  shows "array_ge c (ns_Y ns') \<and> (\<forall>x. ns_X ns' = Some x \<longrightarrow> array_ge c x)"
  using assms(2,3)
  by (rule for_loop_Inr_invariant) (rule iteration_factors_ge [OF assms(1)])

lemma iteration_X_bound: "iteration solve m n k i s = Inr s' \<Longrightarrow> ns_X s' \<noteq> None"
  by (auto simp add: iteration_def Let_def split: option.splits prod.splits if_splits)

lemma for_loop_X_bound:
  assumes "for_loop solve m n k is ns = Inr ns'" and "is \<noteq> []"
  shows "ns_X ns' \<noteq> None"
proof -
  from assms obtain i rest where "is": "is = i # rest" by (cases "is") auto
  with assms(1) obtain s where s: "iteration solve m n k i ns = Inr s"
    and r: "for_loop solve m n k rest s = Inr ns'"
    by (auto split: sum.splits)
  from r iteration_X_bound [OF s] show ?thesis
    by (rule for_loop_Inr_invariant [where P = "\<lambda>s. ns_X s \<noteq> None"])
       (rule iteration_X_bound)
qed

lemma iteration_A: "ns_A (final (iteration solve m n k i ns)) = ns_A ns"
  by (simp add: iteration_def Let_def split: option.splits prod.splits)

lemma for_loop_A: "ns_A (final (for_loop solve m n k is ns)) = ns_A ns"
proof (induction "is" arbitrary: ns)
  case Nil
  show ?case by simp
next
  case (Cons i rest)
  show ?case
  proof (cases "iteration solve m n k i ns")
    case (Inl f)
    with iteration_A [of solve m n k i ns] show ?thesis by (cases f) simp
  next
    case (Inr s)
    with iteration_A [of solve m n k i ns] Cons.IH [of s] show ?thesis by simp
  qed
qed

lemma iteration_odd_Y:
  "odd i \<Longrightarrow> ns_Y (final (iteration solve m n k i ns)) = ns_Y ns"
  by (simp add: iteration_def Let_def odd_iff_mod_2_eq_one split: option.splits prod.splits)

subsection \<open>The library's own exceptions\<close>

text \<open>With a library that builds every objective and a solver that always returns, the
  second model is the first.\<close>

lemma iteration_lib_plain:
  "iteration_lib builds_all (returning solve) m n k i ns = iteration solve m n k i ns"
  by (simp add: iteration_lib_def iteration_def builds_all_def returning_def Let_def
        split: option.splits prod.splits)

lemma for_loop_lib_plain:
  "for_loop_lib builds_all (returning solve) m n k is ns = for_loop solve m n k is ns"
  by (induction "is" arbitrary: ns) (simp_all add: iteration_lib_plain split: sum.splits)

lemma run_lib_plain:
  "run_lib builds_all (returning solve) A Y_init m n k N w = run solve A Y_init m n k N w"
  by (simp add: run_lib_def run_def for_loop_lib_plain)

text \<open>Writing the calls down does not change the run.\<close>

lemma iteration_lib_forget:
  "map_sum (apsnd forget_count) forget_count
     (iteration_lib build (counting solve) m n k i ns)
     = iteration_lib build solve m n k i (forget_count ns)"
  by (cases "ns_solver ns")
     (simp add: iteration_lib_def counting_def forget_count_def Let_def
           split: option.splits prod.splits sum.splits)

lemma for_loop_lib_forget:
  "map_sum (apsnd forget_count) forget_count
     (for_loop_lib build (counting solve) m n k is ns)
     = for_loop_lib build solve m n k is (forget_count ns)"
proof (induction "is" arbitrary: ns)
  case Nil
  show ?case by simp
next
  case (Cons i rest)
  show ?case
  proof (cases "iteration_lib build (counting solve) m n k i ns")
    case (Inl e)
    then show ?thesis by (simp add: iteration_lib_forget [symmetric])
  next
    case (Inr ns')
    then show ?thesis by (simp add: iteration_lib_forget [symmetric] Cons.IH)
  qed
qed

lemma run_lib_forget:
  "map_sum (apsnd forget_count) forget_count
     (run_lib build (counting solve) A Y_init m n k N (w, l))
     = run_lib build solve A Y_init m n k N w"
  using for_loop_lib_forget [of build solve m n k "[1 ..< 1 + N]"
          "\<lparr>ns_A = A, ns_Y = Array Y_init, ns_X = None,
            ns_residual = replicate N 0, ns_solver = (w, l)\<rparr>"]
  by (simp add: run_lib_def forget_count_def)

text \<open>The record of the calls only grows.\<close>

lemma iteration_lib_log:
  "\<exists>l. snd (ns_solver (final (iteration_lib build (counting solve) m n k i ns)))
         = snd (ns_solver ns) @ l"
  by (cases "ns_solver ns")
     (simp add: iteration_lib_def counting_def Let_def
           split: option.splits prod.splits sum.splits)

lemma for_loop_lib_log:
  "\<exists>l. snd (ns_solver (final (for_loop_lib build (counting solve) m n k is ns)))
         = snd (ns_solver ns) @ l"
proof (induction "is" arbitrary: ns)
  case Nil
  show ?case by simp
next
  case (Cons i rest)
  from iteration_lib_log [of build solve m n k i ns]
  obtain l1 where l1: "snd (ns_solver (final (iteration_lib build (counting solve) m n k i ns)))
      = snd (ns_solver ns) @ l1" ..
  show ?case
  proof (cases "iteration_lib build (counting solve) m n k i ns")
    case (Inl f)
    with l1 show ?thesis by auto
  next
    case (Inr ns')
    from Cons.IH [of ns'] obtain l2 where
      "snd (ns_solver (final (for_loop_lib build (counting solve) m n k rest ns')))
         = snd (ns_solver ns') @ l2" ..
    with Inr l1 show ?thesis by simp
  qed
qed

lemma upt_first: "0 < N \<Longrightarrow> [1 ..< 1 + N] = 1 # [2 ..< 1 + N]"
  by (simp add: upt_conv_Cons numeral_2_eq_2 del: upt_Suc)

lemma first_iteration_rejected:
  assumes "build A (Array Y_init) (Variable k n) = Some e"
  shows "iteration_lib build solve m n k 1
           \<lparr>ns_A = A, ns_Y = Array Y_init, ns_X = None, ns_residual = r, ns_solver = w\<rparr>
         = Inl (e, \<lparr>ns_A = A, ns_Y = Array Y_init, ns_X = Some (Variable k n),
                    ns_residual = r, ns_solver = w\<rparr>)"
  using assms by (simp add: iteration_lib_def)

lemma first_iteration_accepted:
  assumes "build A (Array Y_init) (Variable k n) = None"
  shows "snd (ns_solver (final (iteration_lib build (counting solve) m n k 1
           \<lparr>ns_A = A, ns_Y = Array Y_init, ns_X = None, ns_residual = r,
            ns_solver = (w, [])\<rparr>)))
         = [phase_problem A Y_init m n k 1]"
  using assms
  by (simp add: iteration_lib_def counting_def phase_problem_def Let_def
        split: option.splits prod.splits sum.splits)

subsection \<open>Test runs\<close>

text \<open>A target \<open>A\<close> of shape \<open>1 \<times> 2\<close> with \<open>k = 1\<close> and three iterations. The scripted
  answers are arbitrary: they stand for whatever a solver could report.\<close>

lemma replicate_3: "replicate 3 x = [x, x, x]"
  by (simp add: numeral_3_eq_3)

lemma replicate_2: "replicate 2 x = [x, x]"
  by (simp add: numeral_2_eq_2)

lemma range_1: "[Suc 0 ..< 2] = [1]" by (simp add: upt_conv_Cons)

lemma range_2: "[Suc 0 ..< 3] = [1, 2]" by (simp add: upt_conv_Cons)

lemma range_3: "[Suc 0 ..< 4] = [1, 2, 3]" by (simp add: upt_conv_Cons)

lemmas demo_simps =
  run_def iteration_def recording_def scripted_def answer_def setitem_def steady_def
  replicate_2 replicate_3 range_1 range_2 range_3

lemma demo_run:
  "run scripted [[1, 2]] [[1]] 1 2 1 3
     [answer OPTIMAL 3 [[1, 1]], answer OPTIMAL 2 [[2]], answer OPTIMAL 1 [[1, 2]]]
   = Inr \<lparr>ns_A = [[1, 2]], ns_Y = Array [[2]], ns_X = Some (Array [[1, 2]]),
          ns_residual = [3, 2, 1], ns_solver = []\<rparr>"
  by (simp add: demo_simps)

lemma demo_calls:
  "calls scripted [[1, 2]] [[1]] 1 2 1 3
     [answer OPTIMAL 3 [[1, 1]], answer OPTIMAL 2 [[2]], answer OPTIMAL 1 [[1, 2]]]
   = [(phase_problem [[1, 2]] [[1]] 1 2 1 1, answer OPTIMAL 3 [[1, 1]]),
      (phase_problem [[1, 2]] [[1, 1]] 1 2 1 2, answer OPTIMAL 2 [[2]]),
      (phase_problem [[1, 2]] [[2]] 1 2 1 3, answer OPTIMAL 1 [[1, 2]])]"
  by (simp add: calls_def phase_problem_def demo_simps)

text \<open>The second call is not optimal.\<close>

lemma demo_abort_run:
  "run scripted [[1, 2]] [[1]] 1 2 1 3
     [answer OPTIMAL 3 [[1, 1]], answer UNBOUNDED 0 [], answer OPTIMAL 1 [[1, 2]]]
   = Inl (Exception ''Solver did not converge!'',
          \<lparr>ns_A = [[1, 2]], ns_Y = Variable 1 1, ns_X = Some (Array [[1, 1]]),
           ns_residual = [3, 0, 0], ns_solver = [answer OPTIMAL 1 [[1, 2]]]\<rparr>)"
  by (simp add: demo_simps)

lemma demo_abort_calls:
  "calls scripted [[1, 2]] [[1]] 1 2 1 3
     [answer OPTIMAL 3 [[1, 1]], answer UNBOUNDED 0 [], answer OPTIMAL 1 [[1, 2]]]
   = [(phase_problem [[1, 2]] [[1]] 1 2 1 1, answer OPTIMAL 3 [[1, 1]]),
      (phase_problem [[1, 2]] [[1, 1]] 1 2 1 2, answer UNBOUNDED 0 [])]"
  by (simp add: calls_def phase_problem_def demo_simps)

text \<open>The first call is not optimal.\<close>

lemma demo_first_run:
  "run scripted [[1, 2]] [[1]] 1 2 1 3 [answer INFEASIBLE 0 []]
   = Inl (Exception ''Solver did not converge!'',
          \<lparr>ns_A = [[1, 2]], ns_Y = Array [[1]], ns_X = Some (Variable 1 2),
           ns_residual = [0, 0, 0], ns_solver = []\<rparr>)"
  by (simp add: demo_simps)

lemma demo_first_calls:
  "calls scripted [[1, 2]] [[1]] 1 2 1 3 [answer INFEASIBLE 0 []]
   = [(phase_problem [[1, 2]] [[1]] 1 2 1 1, answer INFEASIBLE 0 [])]"
  by (simp add: calls_def phase_problem_def demo_simps)

text \<open>\<open>A\<close> has two rows and one column, the initial \<open>Y\<close> has one row; \<open>n = 1\<close> and
  \<open>k = 1\<close>. The scripted answers are the minimisers, the first objective value rounded.\<close>

lemma demo_mismatch_run:
  "run scripted [[1], [2]] [[1]] 2 1 1 2
     [answer OPTIMAL (7071 / 10000) [[3 / 2]], answer OPTIMAL 0 [[2 / 3], [4 / 3]]]
   = Inr \<lparr>ns_A = [[1], [2]], ns_Y = Array [[2 / 3], [4 / 3]],
          ns_X = Some (Array [[3 / 2]]),
          ns_residual = [7071 / 10000, 0], ns_solver = []\<rparr>"
  by (simp add: demo_simps)

lemma demo_mismatch_calls:
  "calls scripted [[1], [2]] [[1]] 2 1 1 2
     [answer OPTIMAL (7071 / 10000) [[3 / 2]], answer OPTIMAL 0 [[2 / 3], [4 / 3]]]
   = [(phase_problem [[1], [2]] [[1]] 2 1 1 1, answer OPTIMAL (7071 / 10000) [[3 / 2]]),
      (phase_problem [[1], [2]] [[3 / 2]] 2 1 1 2, answer OPTIMAL 0 [[2 / 3], [4 / 3]])]"
  by (simp add: calls_def phase_problem_def demo_simps)

text \<open>A solver whose answer has an entry \<open>-10\<^sup>-\<^sup>7\<close>, as SCS returns them.\<close>

lemma demo_steady_run:
  "run (steady (answer OPTIMAL (1 / 2) [[- (1 / 10000000), 2]])) [[1, 2]] [[1]] 1 2 1 2 ()
   = Inr \<lparr>ns_A = [[1, 2]], ns_Y = Array [[- (1 / 10000000), 2]],
          ns_X = Some (Array [[- (1 / 10000000), 2]]),
          ns_residual = [1 / 2, 1 / 2], ns_solver = ()\<rparr>"
  by (simp add: demo_simps)

text \<open>A single iteration.\<close>

lemma demo_single_run:
  "run scripted [[1, 2]] [[1]] 1 2 1 1 [answer OPTIMAL 3 [[1, 1]]]
   = Inr \<lparr>ns_A = [[1, 2]], ns_Y = Array [[1]], ns_X = Some (Array [[1, 1]]),
          ns_residual = [3], ns_solver = []\<rparr>"
  by (simp add: demo_simps)

text \<open>The scenario of the specification, a target of shape \<open>10 \<times> 10\<close> and an initial \<open>Y\<close> of
  shape \<open>8 \<times> 5\<close>, which the testing builder rejects, and the target of shape \<open>2 \<times> 1\<close> with
  an initial \<open>Y\<close> of shape \<open>1 \<times> 1\<close>, which it lets through.\<close>

lemma demo_rejected:
  "shape_checking (replicate 10 (replicate 10 1)) (Array (replicate 8 (replicate 5 1)))
     (Variable 5 10) = Some (ValueError ''Cannot broadcast dimensions'')"
  by (simp add: shape_checking_def)

lemma demo_accepted:
  "shape_checking [[1], [2]] (Array [[1]]) (Variable 1 1) = None"
  by (simp add: shape_checking_def)

section \<open>The claims\<close>

text \<open>In the statements below \<open>run solve A Y_init m n k N w\<close> is the cell run with
  \<open>MAX_ITERS = N\<close>, and \<open>calls solve A Y_init m n k N w\<close> is the list of the solver calls
  of that run, call \<open>i\<close> (counted from 1) at index \<open>i - 1\<close>. The exception that the
  specification names \<open>ConvergenceError\<close> is the cell's
  \<^verbatim>\<open>Exception("Solver did not converge!")\<close>.\<close>

subsection \<open>C1: phase parity\<close>

text \<open>C1. Each iteration makes one solver call, so call \<open>i\<close> belongs to iteration \<open>i\<close>, and
  there are at most \<open>N\<close> of them. The problem of call \<open>i\<close> is the one of the phase of \<open>i\<close>:
  for odd \<open>i\<close> the factor \<open>Y\<close> is a constant array and \<open>X\<close> is the variable, constrained
  to be nonnegative; for even \<open>i\<close> it is the other way round. The constant factor is
  \<open>Y_init\<close> at the first iteration and afterwards the factor solved for by the iteration
  before. No call poses any other problem.\<close>

theorem phase_parity:
  "length (calls solve A Y_init m n k N w) \<le> N \<and>
   (\<forall>i. 1 \<le> i \<and> i \<le> length (calls solve A Y_init m n k N w) \<longrightarrow>
      fst (calls solve A Y_init m n k N w ! (i - 1))
        = phase_problem A
            (if i = 1 then Y_init
             else variable_value (snd (calls solve A Y_init m n k N w ! (i - 2))))
            m n k i)"
proof -
  let ?T = "calls solve A Y_init m n k N w"
  have "length ?T \<le> N \<and> phases_ok A Y_init m n k ?T"
  proof (cases rule: run_cases [of solve A Y_init m n k N w])
    case (returns ns)
    from run_Inr(1,4) [OF this] show ?thesis by simp
  next
    case (raises e ns)
    from run_Inl(3,6) [OF this] show ?thesis by simp
  qed
  moreover have "fixed_factor Y_init ?T i
      = (if i = 1 then Y_init else variable_value (snd (?T ! (i - 2))))"
    if "1 \<le> i" for i
    using that by (auto simp add: fixed_factor_def)
  ultimately show ?thesis by (simp add: phases_ok_def)
qed

theorem phase_parity_witness:
  "(1::nat) \<le> 2 \<and>
   2 \<le> length (calls scripted [[1, 2]] [[1]] 1 2 1 3
          [answer OPTIMAL 3 [[1, 1]], answer OPTIMAL 2 [[2]], answer OPTIMAL 1 [[1, 2]]]) \<and>
   fst (calls scripted [[1, 2]] [[1]] 1 2 1 3
          [answer OPTIMAL 3 [[1, 1]], answer OPTIMAL 2 [[2]], answer OPTIMAL 1 [[1, 2]]] ! 1)
     = phase_problem [[1, 2]] [[1, 1]] 1 2 1 2"
  using phase_parity [of scripted "[[1, 2]]" "[[1]]" 1 2 1 3
      "[answer OPTIMAL 3 [[1, 1]], answer OPTIMAL 2 [[2]], answer OPTIMAL 1 [[1, 2]]]",
      THEN conjunct2, rule_format, of 2]
  by (simp only: demo_calls) (simp add: answer_def)

subsection \<open>C2: the residual history\<close>

text \<open>C2. When the run returns, \<open>residual\<close> has length \<open>N\<close>, exactly \<open>N\<close> solver calls were
  made, each of them reported optimal, and for every iteration \<open>i\<close> from 1 to \<open>N\<close> the
  entry \<open>i\<close> of \<open>residual\<close> (index \<open>i - 1\<close>) is the objective value that the solver
  reported at call \<open>i\<close>.\<close>

theorem residual_history:
  assumes "run solve A Y_init m n k N w = Inr ns"
  shows "length (ns_residual ns) = N \<and>
         length (calls solve A Y_init m n k N w) = N \<and>
         (\<forall>i. 1 \<le> i \<and> i \<le> N \<longrightarrow>
            prob_status (snd (calls solve A Y_init m n k N w ! (i - 1))) = OPTIMAL \<and>
            ns_residual ns ! (i - 1)
              = prob_value (snd (calls solve A Y_init m n k N w ! (i - 1))))"
proof -
  let ?T = "calls solve A Y_init m n k N w"
  note len = run_Inr(1) [OF assms] and opt = run_Inr(2) [OF assms]
    and res = run_Inr(3) [OF assms]
  have "prob_status (snd (?T ! (i - 1))) = OPTIMAL \<and>
        ns_residual ns ! (i - 1) = prob_value (snd (?T ! (i - 1)))"
    if "1 \<le> i \<and> i \<le> N" for i
  proof -
    from that len have "i - 1 < length ?T" by auto
    with opt res show ?thesis by (simp add: list_all_length)
  qed
  with len res show ?thesis by simp
qed

theorem residual_history_witness:
  "run scripted [[1, 2]] [[1]] 1 2 1 3
     [answer OPTIMAL 3 [[1, 1]], answer OPTIMAL 2 [[2]], answer OPTIMAL 1 [[1, 2]]]
   = Inr \<lparr>ns_A = [[1, 2]], ns_Y = Array [[2]], ns_X = Some (Array [[1, 2]]),
          ns_residual = [3, 2, 1], ns_solver = []\<rparr> \<and>
   length [3, 2, 1 :: real] = 3 \<and>
   [3, 2, 1 :: real] ! (2 - 1) = prob_value (snd (calls scripted [[1, 2]] [[1]] 1 2 1 3
     [answer OPTIMAL 3 [[1, 1]], answer OPTIMAL 2 [[2]], answer OPTIMAL 1 [[1, 2]]] ! (2 - 1)))"
  using residual_history [OF demo_run, THEN conjunct2, THEN conjunct2, rule_format, of 2]
  by (simp only: demo_calls demo_run) (simp add: answer_def)

subsection \<open>C3: a solver call that is not optimal aborts the run\<close>

text \<open>C3. The run raises \<open>Exception("Solver did not converge!")\<close> if and only if some solver
  call reported a status other than optimal. In that case the call that was not optimal
  is the last call of the run and every call before it was optimal: no later iteration
  ran and the failed problem was not tried again. The run does not return, so no \<open>Y\<close>,
  \<open>X\<close> or \<open>residual\<close> is handed back. The cell raises no other exception: \<open>X\<close> is
  bound before it is first read and every index into \<open>residual\<close> is in range.\<close>

theorem abort_on_non_optimal:
  "((\<exists>ns. run solve A Y_init m n k N w = Inl (Exception ''Solver did not converge!'', ns))
      \<longleftrightarrow> (\<exists>c \<in> set (calls solve A Y_init m n k N w). prob_status (snd c) \<noteq> OPTIMAL)) \<and>
   ((\<exists>c \<in> set (calls solve A Y_init m n k N w). prob_status (snd c) \<noteq> OPTIMAL) \<longrightarrow>
      prob_status (snd (last (calls solve A Y_init m n k N w))) \<noteq> OPTIMAL \<and>
      (\<forall>c \<in> set (butlast (calls solve A Y_init m n k N w)). prob_status (snd c) = OPTIMAL) \<and>
      length (calls solve A Y_init m n k N w) \<le> N \<and>
      (\<forall>ns. run solve A Y_init m n k N w \<noteq> Inr ns)) \<and>
   (\<forall>e ns. run solve A Y_init m n k N w = Inl (e, ns) \<longrightarrow>
      e = Exception ''Solver did not converge!'')"
proof (cases rule: run_cases [of solve A Y_init m n k N w])
  case (returns ns)
  from run_Inr(2) [OF this]
  have "\<forall>c \<in> set (calls solve A Y_init m n k N w). prob_status (snd c) = OPTIMAL"
    by (simp add: list_all_iff)
  with returns show ?thesis by auto
next
  case (raises e ns)
  let ?T = "calls solve A Y_init m n k N w"
  note e = run_Inl(1) [OF raises] and ne = run_Inl(2) [OF raises]
    and len = run_Inl(3) [OF raises] and opt = run_Inl(4) [OF raises]
    and bad = run_Inl(5) [OF raises]
  from ne bad have ex: "\<exists>c \<in> set ?T. prob_status (snd c) \<noteq> OPTIMAL"
    using last_in_set by blast
  from opt have "\<forall>c \<in> set (butlast ?T). prob_status (snd c) = OPTIMAL"
    by (simp add: list_all_iff)
  with raises e ex bad len show ?thesis by auto
qed

theorem abort_on_non_optimal_witness:
  "(\<exists>c \<in> set (calls scripted [[1, 2]] [[1]] 1 2 1 3
       [answer OPTIMAL 3 [[1, 1]], answer UNBOUNDED 0 [], answer OPTIMAL 1 [[1, 2]]]).
      prob_status (snd c) \<noteq> OPTIMAL) \<and>
   (\<exists>ns. run scripted [[1, 2]] [[1]] 1 2 1 3
       [answer OPTIMAL 3 [[1, 1]], answer UNBOUNDED 0 [], answer OPTIMAL 1 [[1, 2]]]
      = Inl (Exception ''Solver did not converge!'', ns)) \<and>
   length (calls scripted [[1, 2]] [[1]] 1 2 1 3
       [answer OPTIMAL 3 [[1, 1]], answer UNBOUNDED 0 [], answer OPTIMAL 1 [[1, 2]]]) \<le> 3 \<and>
   (\<forall>ns. run scripted [[1, 2]] [[1]] 1 2 1 3
       [answer OPTIMAL 3 [[1, 1]], answer UNBOUNDED 0 [], answer OPTIMAL 1 [[1, 2]]] \<noteq> Inr ns)"
proof -
  have h: "\<exists>c \<in> set (calls scripted [[1, 2]] [[1]] 1 2 1 3
       [answer OPTIMAL 3 [[1, 1]], answer UNBOUNDED 0 [], answer OPTIMAL 1 [[1, 2]]]).
      prob_status (snd c) \<noteq> OPTIMAL"
    by (simp only: demo_abort_calls) (simp add: answer_def)
  from abort_on_non_optimal [of scripted "[[1, 2]]" "[[1]]" 1 2 1 3
      "[answer OPTIMAL 3 [[1, 1]], answer UNBOUNDED 0 [], answer OPTIMAL 1 [[1, 2]]]"] h
  show ?thesis by blast
qed

subsection \<open>C4: the loop runs the full count\<close>

text \<open>C4. For every solver and every input, if every call that the run made reported
  optimal, then the run made exactly \<open>N\<close> calls, one for each of the \<open>N\<close> iterations,
  and returned. Nothing but a status that is not optimal ends the loop early; the
  objective values play no part.\<close>

theorem full_count:
  assumes "\<forall>c \<in> set (calls solve A Y_init m n k N w). prob_status (snd c) = OPTIMAL"
  shows "length (calls solve A Y_init m n k N w) = N \<and>
         (\<exists>ns. run solve A Y_init m n k N w = Inr ns)"
proof (cases rule: run_cases [of solve A Y_init m n k N w])
  case (returns ns)
  from run_Inr(1) [OF this] returns show ?thesis by simp
next
  case (raises e ns)
  let ?T = "calls solve A Y_init m n k N w"
  from run_Inl(2,5) [OF raises] have "?T \<noteq> []" and "prob_status (snd (last ?T)) \<noteq> OPTIMAL"
    by simp_all
  with assms show ?thesis using last_in_set by blast
qed

theorem full_count_witness:
  "list_all (\<lambda>c. prob_status (snd c) = OPTIMAL)
     (calls scripted [[1, 2]] [[1]] 1 2 1 3
       [answer OPTIMAL 3 [[1, 1]], answer OPTIMAL 2 [[2]], answer OPTIMAL 1 [[1, 2]]]) \<and>
   length (calls scripted [[1, 2]] [[1]] 1 2 1 3
       [answer OPTIMAL 3 [[1, 1]], answer OPTIMAL 2 [[2]], answer OPTIMAL 1 [[1, 2]]]) = 3 \<and>
   (\<exists>ns. run scripted [[1, 2]] [[1]] 1 2 1 3
       [answer OPTIMAL 3 [[1, 1]], answer OPTIMAL 2 [[2]], answer OPTIMAL 1 [[1, 2]]]
      = Inr ns)"
proof -
  have h: "\<forall>c \<in> set (calls scripted [[1, 2]] [[1]] 1 2 1 3
       [answer OPTIMAL 3 [[1, 1]], answer OPTIMAL 2 [[2]], answer OPTIMAL 1 [[1, 2]]]).
      prob_status (snd c) = OPTIMAL"
    by (simp only: demo_calls) (simp add: answer_def)
  from full_count [OF h] h show ?thesis by (simp add: list_all_iff)
qed

subsection \<open>C5: what the exception carries\<close>

text \<open>C5 as stated does not hold: the exception carries neither the iteration number
  nor the reported status. A run aborted at iteration 1 with status \<open>INFEASIBLE\<close> and a
  run aborted at iteration 2 with status \<open>UNBOUNDED\<close> raise the very same exception.\<close>

theorem exception_payload_counterexample:
  "run scripted [[1, 2]] [[1]] 1 2 1 3 [answer INFEASIBLE 0 []]
     = Inl (Exception ''Solver did not converge!'',
            \<lparr>ns_A = [[1, 2]], ns_Y = Array [[1]], ns_X = Some (Variable 1 2),
             ns_residual = [0, 0, 0], ns_solver = []\<rparr>) \<and>
   length (calls scripted [[1, 2]] [[1]] 1 2 1 3 [answer INFEASIBLE 0 []]) = 1 \<and>
   prob_status (snd (last (calls scripted [[1, 2]] [[1]] 1 2 1 3 [answer INFEASIBLE 0 []])))
     = INFEASIBLE \<and>
   run scripted [[1, 2]] [[1]] 1 2 1 3
       [answer OPTIMAL 3 [[1, 1]], answer UNBOUNDED 0 [], answer OPTIMAL 1 [[1, 2]]]
     = Inl (Exception ''Solver did not converge!'',
            \<lparr>ns_A = [[1, 2]], ns_Y = Variable 1 1, ns_X = Some (Array [[1, 1]]),
             ns_residual = [3, 0, 0], ns_solver = [answer OPTIMAL 1 [[1, 2]]]\<rparr>) \<and>
   length (calls scripted [[1, 2]] [[1]] 1 2 1 3
       [answer OPTIMAL 3 [[1, 1]], answer UNBOUNDED 0 [], answer OPTIMAL 1 [[1, 2]]]) = 2 \<and>
   prob_status (snd (last (calls scripted [[1, 2]] [[1]] 1 2 1 3
       [answer OPTIMAL 3 [[1, 1]], answer UNBOUNDED 0 [], answer OPTIMAL 1 [[1, 2]]])))
     = UNBOUNDED"
  by (simp only: demo_first_run demo_first_calls demo_abort_run demo_abort_calls)
     (simp add: answer_def)

text \<open>C5, amended. Whenever a solver call reports a status that is not optimal, at
  whatever iteration and with whatever status, the run raises the exception with the
  fixed message \<open>Solver did not converge!\<close>.\<close>

theorem fixed_message:
  assumes "c \<in> set (calls solve A Y_init m n k N w)" and "prob_status (snd c) \<noteq> OPTIMAL"
  shows "\<exists>ns. run solve A Y_init m n k N w = Inl (Exception ''Solver did not converge!'', ns)"
proof (cases rule: run_cases [of solve A Y_init m n k N w])
  case (returns ns)
  from run_Inr(2) [OF this] assms show ?thesis by (simp add: list_all_iff)
next
  case (raises e ns)
  from run_Inl(1) [OF this] raises show ?thesis by simp
qed

theorem fixed_message_witness:
  "(phase_problem [[1, 2]] [[1, 1]] 1 2 1 2, answer UNBOUNDED 0 [])
     \<in> set (calls scripted [[1, 2]] [[1]] 1 2 1 3
         [answer OPTIMAL 3 [[1, 1]], answer UNBOUNDED 0 [], answer OPTIMAL 1 [[1, 2]]]) \<and>
   prob_status (answer UNBOUNDED 0 []) \<noteq> OPTIMAL \<and>
   (\<exists>ns. run scripted [[1, 2]] [[1]] 1 2 1 3
         [answer OPTIMAL 3 [[1, 1]], answer UNBOUNDED 0 [], answer OPTIMAL 1 [[1, 2]]]
       = Inl (Exception ''Solver did not converge!'', ns))"
proof -
  have h1: "(phase_problem [[1, 2]] [[1, 1]] 1 2 1 2, answer UNBOUNDED 0 [])
     \<in> set (calls scripted [[1, 2]] [[1]] 1 2 1 3
         [answer OPTIMAL 3 [[1, 1]], answer UNBOUNDED 0 [], answer OPTIMAL 1 [[1, 2]]])"
    by (simp only: demo_abort_calls) simp
  have h2: "prob_status (snd (phase_problem [[1, 2]] [[1, 1]] 1 2 1 2,
      answer UNBOUNDED 0 [])) \<noteq> OPTIMAL"
    by (simp add: answer_def)
  from fixed_message [OF h1 h2] h1 h2 show ?thesis by simp
qed

subsection \<open>C6: shapes that do not match\<close>

text \<open>C6 as stated does not hold: the cell never compares shapes. With a target of two
  rows and an initial \<open>Y\<close> of one row, and a solver that answers optimal, the run returns
  and the solver has been called twice. (Here \<open>Y X\<close> is a single number at the first
  iteration, and from the second iteration on \<open>Y\<close> is a variable of shape \<open>(m, k)\<close>.)\<close>

theorem shape_mismatch_counterexample:
  "length [[1 :: real]] \<noteq> length [[1], [2 :: real]] \<and>
   run scripted [[1], [2]] [[1]] 2 1 1 2
       [answer OPTIMAL (7071 / 10000) [[3 / 2]], answer OPTIMAL 0 [[2 / 3], [4 / 3]]]
     = Inr \<lparr>ns_A = [[1], [2]], ns_Y = Array [[2 / 3], [4 / 3]],
            ns_X = Some (Array [[3 / 2]]),
            ns_residual = [7071 / 10000, 0], ns_solver = []\<rparr> \<and>
   length (calls scripted [[1], [2]] [[1]] 2 1 1 2
       [answer OPTIMAL (7071 / 10000) [[3 / 2]], answer OPTIMAL 0 [[2 / 3], [4 / 3]]]) = 2"
  by (simp only: demo_mismatch_run demo_mismatch_calls) simp

text \<open>C6, amended. The cell has no check of shapes of its own and nothing is raised
  before the loop starts: a run of no iterations returns, whatever the shapes are. With
  at least one iteration the first thing that happens is that the first iteration builds
  \<open>A - Y X\<close> from \<open>A\<close> and \<open>Y_init\<close> as they are. If the library raises there, as CVXPY does
  for a target of shape \<open>10 \<times> 10\<close> and an initial \<open>Y\<close> of shape \<open>8 \<times> 5\<close>, the run ends with
  that exception of the library, in the first iteration, and the solver has been called
  zero times. If the library builds the objective, as it does when \<open>Y X\<close> is a single
  number, the solver is called on it. This holds for every input, whether the row counts
  of \<open>Y_init\<close> and \<open>A\<close> differ or not.\<close>

theorem no_shape_check:
  "run_lib build solve A Y_init m n k 0 w
     = Inr \<lparr>ns_A = A, ns_Y = Array Y_init, ns_X = None, ns_residual = [], ns_solver = w\<rparr> \<and>
   (0 < N \<and> build A (Array Y_init) (Variable k n) = Some e \<longrightarrow>
      run_lib build solve A Y_init m n k N w
        = Inl (e, \<lparr>ns_A = A, ns_Y = Array Y_init, ns_X = Some (Variable k n),
                   ns_residual = replicate N 0, ns_solver = w\<rparr>) \<and>
      solver_calls build solve A Y_init m n k N w = []) \<and>
   (0 < N \<and> build A (Array Y_init) (Variable k n) = None \<longrightarrow>
      solver_calls build solve A Y_init m n k N w \<noteq> [] \<and>
      hd (solver_calls build solve A Y_init m n k N w) = phase_problem A Y_init m n k 1)"
proof (intro conjI impI)
  show "run_lib build solve A Y_init m n k 0 w
     = Inr \<lparr>ns_A = A, ns_Y = Array Y_init, ns_X = None, ns_residual = [], ns_solver = w\<rparr>"
    by (simp add: run_lib_def)
next
  assume h: "0 < N \<and> build A (Array Y_init) (Variable k n) = Some e"
  then have N: "0 < N" and b: "build A (Array Y_init) (Variable k n) = Some e" by simp_all
  show "run_lib build solve A Y_init m n k N w
        = Inl (e, \<lparr>ns_A = A, ns_Y = Array Y_init, ns_X = Some (Variable k n),
                   ns_residual = replicate N 0, ns_solver = w\<rparr>)"
    by (simp only: run_lib_def upt_first [OF N] for_loop_lib.simps
          first_iteration_rejected [where build = build and A = A and Y_init = Y_init
            and k = k and n = n and e = e, OF b]) simp
  show "solver_calls build solve A Y_init m n k N w = []"
    by (simp only: solver_calls_def run_lib_def upt_first [OF N] for_loop_lib.simps
          first_iteration_rejected [where build = build and A = A and Y_init = Y_init
            and k = k and n = n and e = e, OF b]) simp
next
  assume h: "0 < N \<and> build A (Array Y_init) (Variable k n) = None"
  then have N: "0 < N" and b: "build A (Array Y_init) (Variable k n) = None" by simp_all
  let ?ns0 = "\<lparr>ns_A = A, ns_Y = Array Y_init, ns_X = None,
               ns_residual = replicate N 0, ns_solver = (w, [] :: problem list)\<rparr>"
  let ?it = "iteration_lib build (counting solve) m n k 1 ?ns0"
  have first: "snd (ns_solver (final ?it)) = [phase_problem A Y_init m n k 1]"
    by (rule first_iteration_accepted [where build = build and A = A and Y_init = Y_init
          and k = k and n = n, OF b])
  have unfold: "run_lib build (counting solve) A Y_init m n k N (w, [])
      = (case ?it of Inl f \<Rightarrow> Inl f
         | Inr ns' \<Rightarrow> for_loop_lib build (counting solve) m n k [2 ..< 1 + N] ns')"
    by (simp only: run_lib_def upt_first [OF N] for_loop_lib.simps)
  have "\<exists>l. solver_calls build solve A Y_init m n k N w = phase_problem A Y_init m n k 1 # l"
  proof (cases ?it)
    case (Inl f)
    with first show ?thesis
      by (simp only: solver_calls_def unfold) simp
  next
    case (Inr ns')
    from for_loop_lib_log [of build solve m n k "[2 ..< 1 + N]" ns'] obtain l where
      "snd (ns_solver (final (for_loop_lib build (counting solve) m n k [2 ..< 1 + N] ns')))
         = snd (ns_solver ns') @ l" ..
    with Inr first show ?thesis
      by (simp only: solver_calls_def unfold) simp
  qed
  then obtain l where l: "solver_calls build solve A Y_init m n k N w
      = phase_problem A Y_init m n k 1 # l" ..
  from l show "solver_calls build solve A Y_init m n k N w \<noteq> []" by simp
  from l show "hd (solver_calls build solve A Y_init m n k N w)
      = phase_problem A Y_init m n k 1" by simp
qed

theorem no_shape_check_witness:
  "length (replicate 8 (replicate 5 (1::real))) \<noteq> length (replicate 10 (replicate 10 (1::real))) \<and>
   run_lib shape_checking (returning scripted)
       (replicate 10 (replicate 10 1)) (replicate 8 (replicate 5 1)) 10 10 5 30 []
     = Inl (ValueError ''Cannot broadcast dimensions'',
            \<lparr>ns_A = replicate 10 (replicate 10 1),
             ns_Y = Array (replicate 8 (replicate 5 1)), ns_X = Some (Variable 5 10),
             ns_residual = replicate 30 0, ns_solver = []\<rparr>) \<and>
   solver_calls shape_checking (returning scripted)
       (replicate 10 (replicate 10 1)) (replicate 8 (replicate 5 1)) 10 10 5 30 [] = [] \<and>
   length [[1 :: real]] \<noteq> length [[1], [2 :: real]] \<and>
   solver_calls shape_checking (returning scripted) [[1], [2]] [[1]] 2 1 1 2
       [answer OPTIMAL (7071 / 10000) [[3 / 2]], answer OPTIMAL 0 [[2 / 3], [4 / 3]]] \<noteq> [] \<and>
   hd (solver_calls shape_checking (returning scripted) [[1], [2]] [[1]] 2 1 1 2
       [answer OPTIMAL (7071 / 10000) [[3 / 2]], answer OPTIMAL 0 [[2 / 3], [4 / 3]]])
     = phase_problem [[1], [2]] [[1]] 2 1 1 1"
proof -
  have h1: "(0::nat) < 30 \<and>
      shape_checking (replicate 10 (replicate 10 1)) (Array (replicate 8 (replicate 5 1)))
        (Variable 5 10) = Some (ValueError ''Cannot broadcast dimensions'')"
    using demo_rejected by simp
  have h2: "(0::nat) < 2 \<and> shape_checking [[1], [2]] (Array [[1]]) (Variable 1 1) = None"
    using demo_accepted by simp
  have r: "run_lib shape_checking (returning scripted)
       (replicate 10 (replicate 10 1)) (replicate 8 (replicate 5 1)) 10 10 5 30 []
     = Inl (ValueError ''Cannot broadcast dimensions'',
            \<lparr>ns_A = replicate 10 (replicate 10 1),
             ns_Y = Array (replicate 8 (replicate 5 1)), ns_X = Some (Variable 5 10),
             ns_residual = replicate 30 0, ns_solver = []\<rparr>) \<and>
   solver_calls shape_checking (returning scripted)
       (replicate 10 (replicate 10 1)) (replicate 8 (replicate 5 1)) 10 10 5 30 [] = []"
    using no_shape_check [where build = shape_checking and solve = "returning scripted"
        and A = "replicate 10 (replicate 10 1)" and Y_init = "replicate 8 (replicate 5 1)"
        and m = 10 and n = 10 and k = 5 and N = 30 and w = "[]"
        and e = "ValueError ''Cannot broadcast dimensions''"] h1
    by blast
  have a: "solver_calls shape_checking (returning scripted) [[1], [2]] [[1]] 2 1 1 2
       [answer OPTIMAL (7071 / 10000) [[3 / 2]], answer OPTIMAL 0 [[2 / 3], [4 / 3]]] \<noteq> [] \<and>
   hd (solver_calls shape_checking (returning scripted) [[1], [2]] [[1]] 2 1 1 2
       [answer OPTIMAL (7071 / 10000) [[3 / 2]], answer OPTIMAL 0 [[2 / 3], [4 / 3]]])
     = phase_problem [[1], [2]] [[1]] 2 1 1 1"
    using no_shape_check [where build = shape_checking and solve = "returning scripted"
        and A = "[[1], [2]]" and Y_init = "[[1]]"
        and m = 2 and n = 1 and k = 1 and N = 2
        and w = "[answer OPTIMAL (7071 / 10000) [[3 / 2]], answer OPTIMAL 0 [[2 / 3], [4 / 3]]]"] h2
    by blast
  from r a show ?thesis by simp
qed

subsection \<open>C7: nonnegative factors up to the tolerance\<close>

text \<open>C7. Suppose the solver, whenever it reports optimal, gives a factor whose entries
  are all at least \<open>-\<epsilon>\<close>. Then after a run that returns, \<open>Y\<close> is bound to an array whose
  entries are all at least \<open>-\<epsilon>\<close>, and so is \<open>X\<close> as soon as there was one iteration. For
  two iterations or more nothing is asked of the input. A run of fewer than two
  iterations returns the initial \<open>Y\<close> itself, so there the entries of \<open>Y_init\<close> must be at
  least \<open>-\<epsilon>\<close>; they are when \<open>Y_init\<close> is nonnegative, as the specification asks of the
  input and as the notebook draws it, from \<open>[0, 1)\<close>.\<close>

theorem factors_nonneg:
  assumes "\<forall>prob w. prob_status (fst (solve prob w)) = OPTIMAL
           \<longrightarrow> entries_ge (- \<epsilon>) (variable_value (fst (solve prob w)))"
    and "run solve A Y_init m n k N w = Inr ns"
    and "2 \<le> N \<or> entries_ge (- \<epsilon>) Y_init"
  shows "(\<exists>Ym. ns_Y ns = Array Ym \<and> entries_ge (- \<epsilon>) Ym) \<and>
         (0 < N \<longrightarrow> (\<exists>Xm. ns_X ns = Some (Array Xm) \<and> entries_ge (- \<epsilon>) Xm))"
proof -
  let ?ns0 = "\<lparr>ns_A = A, ns_Y = Array Y_init, ns_X = None,
               ns_residual = replicate N 0, ns_solver = w\<rparr>"
  let ?P = "\<lambda>s. array_ge (- \<epsilon>) (ns_Y s) \<and> (\<forall>x. ns_X s = Some x \<longrightarrow> array_ge (- \<epsilon>) x)"
  from assms(2) have loop: "for_loop solve m n k [1 ..< 1 + N] ?ns0 = Inr ns"
    by (simp only: run_def)
  have inv: "?P ns"
  proof (cases "2 \<le> N")
    case True
    then have "[1 ..< 1 + N] = 1 # 2 # [3 ..< 1 + N]"
      by (simp add: upt_conv_Cons numeral_2_eq_2 numeral_3_eq_3 del: upt_Suc)
    with loop obtain s1 s2 where s1: "iteration solve m n k 1 ?ns0 = Inr s1"
      and s2: "iteration solve m n k 2 s1 = Inr s2"
      and rest: "for_loop solve m n k [3 ..< 1 + N] s2 = Inr ns"
      by (auto split: sum.splits)
    from iteration_odd_X_ge [OF assms(1) _ s1]
    have "\<forall>x. ns_X s1 = Some x \<longrightarrow> array_ge (- \<epsilon>) x" by simp
    with iteration_even_Y_ge [OF assms(1) _ s2] have "?P s2" by simp
    with assms(1) rest show ?thesis by (rule for_loop_factors_ge)
  next
    case False
    with assms(3) have "?P ?ns0" by simp
    with assms(1) loop show ?thesis by (rule for_loop_factors_ge)
  qed
  have "ns_X ns \<noteq> None" if "0 < N"
    using for_loop_X_bound [OF loop] that by simp
  with inv show ?thesis by (auto dest: array_ge_Array)
qed

theorem factors_nonneg_witness:
  "run (steady (answer OPTIMAL (1 / 2) [[- (1 / 10000000), 2]])) [[1, 2]] [[1]] 1 2 1 2 ()
     = Inr \<lparr>ns_A = [[1, 2]], ns_Y = Array [[- (1 / 10000000), 2]],
            ns_X = Some (Array [[- (1 / 10000000), 2]]),
            ns_residual = [1 / 2, 1 / 2], ns_solver = ()\<rparr> \<and>
   entries_ge (- (1 / 1000000)) [[1]] \<and>
   entries_ge (- (1 / 1000000)) [[- (1 / 10000000), 2]]"
proof -
  have h1: "\<forall>prob w. prob_status (fst (steady (answer OPTIMAL (1 / 2)
                    [[- (1 / 10000000), 2]]) prob (w::unit))) = OPTIMAL \<longrightarrow>
      entries_ge (- (1 / 1000000))
        (variable_value (fst (steady (answer OPTIMAL (1 / 2) [[- (1 / 10000000), 2]])
           prob w)))"
    by (simp add: steady_def answer_def entries_ge_def)
  have h2: "entries_ge (- (1 / 1000000)) [[1]]" by (simp add: entries_ge_def)
  then have h3: "(2::nat) \<le> 2 \<or> entries_ge (- (1 / 1000000)) [[1]]" by simp
  from factors_nonneg [OF h1 demo_steady_run h3] h2 demo_steady_run
  show ?thesis by simp
qed

subsection \<open>C8: nonnegative residuals\<close>

text \<open>C8. Suppose the solver, whenever it reports optimal, reports an objective value that
  is at least 0. Then after a run that returns, every entry of \<open>residual\<close> is at least
  0.\<close>

theorem residual_nonneg:
  assumes "\<forall>prob w. prob_status (fst (solve prob w)) = OPTIMAL
             \<longrightarrow> 0 \<le> prob_value (fst (solve prob w))"
    and "run solve A Y_init m n k N w = Inr ns"
  shows "\<forall>v \<in> set (ns_residual ns). 0 \<le> v"
proof -
  from assms(2) have "for_loop solve m n k [1 ..< 1 + N]
      \<lparr>ns_A = A, ns_Y = Array Y_init, ns_X = None,
       ns_residual = replicate N 0, ns_solver = w\<rparr> = Inr ns"
    by (simp only: run_def)
  then show ?thesis
  proof (rule for_loop_Inr_invariant)
    show "\<forall>v \<in> set (ns_residual \<lparr>ns_A = A, ns_Y = Array Y_init, ns_X = None,
       ns_residual = replicate N 0, ns_solver = w\<rparr>). 0 \<le> v" by simp
  next
    fix i s s'
    assume "\<forall>v \<in> set (ns_residual s). 0 \<le> v" and "iteration solve m n k i s = Inr s'"
    with assms(1) show "\<forall>v \<in> set (ns_residual s'). 0 \<le> v"
      by (rule iteration_residual_nonneg)
  qed
qed

theorem residual_nonneg_witness:
  "run (steady (answer OPTIMAL (1 / 2) [[- (1 / 10000000), 2]])) [[1, 2]] [[1]] 1 2 1 2 ()
     = Inr \<lparr>ns_A = [[1, 2]], ns_Y = Array [[- (1 / 10000000), 2]],
            ns_X = Some (Array [[- (1 / 10000000), 2]]),
            ns_residual = [1 / 2, 1 / 2], ns_solver = ()\<rparr> \<and>
   list_all (\<lambda>v. 0 \<le> v) [1 / 2, 1 / 2 :: real]"
proof -
  have h: "\<forall>prob w. prob_status (fst (steady (answer OPTIMAL (1 / 2)
                    [[- (1 / 10000000), 2]]) prob (w::unit))) = OPTIMAL \<longrightarrow>
      0 \<le> prob_value (fst (steady (answer OPTIMAL (1 / 2) [[- (1 / 10000000), 2]])
           prob w))"
    by (simp add: steady_def answer_def)
  from residual_nonneg [OF h demo_steady_run] demo_steady_run
  show ?thesis by simp
qed

subsection \<open>C9: the target is not changed\<close>

text \<open>C9. In the namespace in which the run stops, whether it returned or raised, \<open>A\<close> is
  the \<open>A\<close> the run started with, and every solver call of the run was given that same
  \<open>A\<close>. The solver is given \<open>A\<close> as a value; that CVXPY does not write into the array it
  is handed is taken for granted.\<close>

theorem A_unchanged:
  "ns_A (final (run solve A Y_init m n k N w)) = A \<and>
   list_all (\<lambda>c. objective_A (fst c) = A) (calls solve A Y_init m n k N w)"
proof -
  let ?T = "calls solve A Y_init m n k N w"
  have "phases_ok A Y_init m n k ?T"
  proof (cases rule: run_cases [of solve A Y_init m n k N w])
    case (returns ns)
    from run_Inr(4) [OF this] show ?thesis .
  next
    case (raises e ns)
    from run_Inl(6) [OF this] show ?thesis .
  qed
  then have "objective_A (fst (?T ! j)) = A" if "j < length ?T" for j
    using that phases_ok_nth [of A Y_init m n k ?T "Suc j"]
    by (simp add: phase_problem_def)
  then show ?thesis by (simp add: run_def for_loop_A list_all_length)
qed

subsection \<open>C10: an odd iteration leaves Y alone\<close>

text \<open>C10. A run of a single iteration that returns gives back \<open>Y_init\<close> as \<open>Y\<close>. More
  generally an odd iteration, whether it completes or raises, leaves \<open>Y\<close> bound to what
  it was bound to before.\<close>

theorem Y_kept_on_odd_iteration:
  "(run solve A Y_init m n k 1 w = Inr ns \<longrightarrow> ns_Y ns = Array Y_init) \<and>
   (odd i \<longrightarrow> ns_Y (final (iteration solve m n k i ns0)) = ns_Y ns0)"
proof -
  have "ns_Y (final (run solve A Y_init m n k 1 w)) = Array Y_init"
    using iteration_odd_Y [of 1 solve m n k
            "\<lparr>ns_A = A, ns_Y = Array Y_init, ns_X = None,
              ns_residual = replicate 1 0, ns_solver = w\<rparr>"]
    by (cases "iteration solve m n k 1 \<lparr>ns_A = A, ns_Y = Array Y_init, ns_X = None,
              ns_residual = replicate 1 0, ns_solver = w\<rparr>")
       (auto simp add: run_def)
  then show ?thesis by (auto simp add: iteration_odd_Y)
qed

theorem Y_kept_on_odd_iteration_witness:
  "run scripted [[1, 2]] [[1]] 1 2 1 1 [answer OPTIMAL 3 [[1, 1]]]
     = Inr \<lparr>ns_A = [[1, 2]], ns_Y = Array [[1]], ns_X = Some (Array [[1, 1]]),
            ns_residual = [3], ns_solver = []\<rparr> \<and>
   odd (3::nat) \<and>
   ns_Y (final (iteration scripted 1 2 1 3
                  \<lparr>ns_A = [[1, 2]], ns_Y = Array [[2]], ns_X = Some (Array [[1, 1]]),
                   ns_residual = [3, 2, 0], ns_solver = [answer OPTIMAL 1 [[1, 2]]]\<rparr>))
     = Array [[2]]"
  using Y_kept_on_odd_iteration [of scripted "[[1, 2]]" "[[1]]" 1 2 1
      "[answer OPTIMAL 3 [[1, 1]]]"
      "\<lparr>ns_A = [[1, 2]], ns_Y = Array [[1]], ns_X = Some (Array [[1, 1]]),
        ns_residual = [3], ns_solver = []\<rparr>"
      3
      "\<lparr>ns_A = [[1, 2]], ns_Y = Array [[2]], ns_X = Some (Array [[1, 1]]),
        ns_residual = [3, 2, 0], ns_solver = [answer OPTIMAL 1 [[1, 2]]]\<rparr>"]
    demo_single_run
  by simp

end
